theory Spec2Isabelle
  imports Main
begin

section \<open>Python values, exceptions and websocket connections\<close>

text \<open>
  The values the server handles are the ones \<^verbatim>\<open>json.loads\<close> produces and
  \<^verbatim>\<open>json.dumps\<close> accepts: \<^verbatim>\<open>None\<close> is \<open>JNull\<close>, a \<^verbatim>\<open>str\<close> is \<open>JStr\<close>, a
  \<^verbatim>\<open>dict\<close> is \<open>JObj\<close> with its items in insertion order (the keys of a decoded
  dictionary are distinct). Floating point numbers are left out: the server never
  looks at a number. Python's \<^verbatim>\<open>==\<close> is only ever applied with a string or
  \<^verbatim>\<open>None\<close> on one side, where it agrees with equality of the datatype.
\<close>

datatype json =
    JNull
  | JBool bool
  | JInt int
  | JStr string
  | JArr "json list"
  | JObj "(string \<times> json) list"

datatype exn = ConnectionClosed | JSONDecodeError | AttributeError | KeyError | TypeError

text \<open>
  A text frame received from a peer is represented by what \<^verbatim>\<open>json.loads\<close> makes
  of it: either the decoder rejects the text (\<open>NotJSON\<close>) or it returns a value.
\<close>

datatype frame = NotJSON | Doc json

definition json_loads :: "frame \<Rightarrow> exn + json" where
  "json_loads data = (case data of NotJSON \<Rightarrow> Inl JSONDecodeError | Doc v \<Rightarrow> Inr v)"

text \<open>\<^verbatim>\<open>message.get(key)\<close>: only a dictionary has the method; a missing key gives \<^verbatim>\<open>None\<close>.\<close>

definition dict_get :: "json \<Rightarrow> string \<Rightarrow> exn + json" where
  "dict_get message key =
     (case message of
        JObj items \<Rightarrow> (case map_of items key of None \<Rightarrow> Inr JNull | Some v \<Rightarrow> Inr v)
      | _ \<Rightarrow> Inl AttributeError)"

text \<open>
  A connection handle is a number. The peer behind it is a script: the frames it
  delivers, in order (\<open>inbox\<close>). \<^verbatim>\<open>recv\<close> hands out the next frame; when none is
  left the peer has gone, \<^verbatim>\<open>recv\<close> raises \<^verbatim>\<open>ConnectionClosed\<close> and the connection
  is closed from then on. \<^verbatim>\<open>send\<close> on a closed connection raises
  \<^verbatim>\<open>ConnectionClosed\<close> (the behaviour of the websockets library, which the server's
  own \<^verbatim>\<open>except\<close> clauses around \<^verbatim>\<open>send\<close> rely on); on an open one the message is
  appended to \<open>outbox\<close>, the log of what the peer was sent. A peer that stays
  connected and silent for ever is not part of the model.
\<close>

record conn =
  inbox :: "frame list"
  closed :: bool
  outbox :: "json list"

type_synonym ws = nat
type_synonym net = "ws \<Rightarrow> conn"

definition send :: "ws \<Rightarrow> json \<Rightarrow> net \<Rightarrow> (exn + unit) \<times> net" where
  "send websocket message n =
     (if closed (n websocket) then (Inl ConnectionClosed, n)
      else (Inr (), n(websocket := (n websocket)\<lparr>outbox := outbox (n websocket) @ [message]\<rparr>)))"

definition recv :: "ws \<Rightarrow> net \<Rightarrow> (exn + frame) \<times> net" where
  "recv websocket n =
     (case inbox (n websocket) of
        [] \<Rightarrow> (Inl ConnectionClosed, n(websocket := (n websocket)\<lparr>closed := True\<rparr>))
      | data # rest \<Rightarrow> (Inr data, n(websocket := (n websocket)\<lparr>inbox := rest\<rparr>)))"

section \<open>The game object\<close>

record game =
  player1_ws :: ws
  player2_ws :: ws
  players :: "ws \<rightharpoonup> json"
  game_over :: bool

text \<open>\<^verbatim>\<open>RockPaperScissorsGame.__init__\<close>\<close>

definition RockPaperScissorsGame :: "ws \<Rightarrow> ws \<Rightarrow> game" where
  "RockPaperScissorsGame p1 p2 =
     \<lparr>player1_ws = p1, player2_ws = p2,
      players = [p1 \<mapsto> JNull, p2 \<mapsto> JNull], game_over = False\<rparr>"

subsection \<open>The move resolver\<close>

definition wins :: "(string \<times> string) list" where
  "wins = [(''rock'', ''scissors''), (''scissors'', ''paper''), (''paper'', ''rock'')]"

text \<open>
  \<^verbatim>\<open>get_result\<close>. \<^verbatim>\<open>wins[move1]\<close> raises \<^verbatim>\<open>KeyError\<close> for a key the table does not
  have and \<^verbatim>\<open>TypeError\<close> for an unhashable one.
\<close>

definition get_result :: "json \<Rightarrow> json \<Rightarrow> exn + string" where
  "get_result move1 move2 =
     (if move1 = move2 then Inr ''draw''
      else (case move1 of
              JStr m \<Rightarrow> (case map_of wins m of
                           None \<Rightarrow> Inl KeyError
                         | Some w \<Rightarrow> Inr (if JStr w = move2 then ''player1'' else ''player2''))
            | JArr _ \<Rightarrow> Inl TypeError
            | JObj _ \<Rightarrow> Inl TypeError
            | _ \<Rightarrow> Inl KeyError))"

text \<open>The legal choices, as the list \<^verbatim>\<open>receive_move\<close> tests a move against.\<close>

definition legal_moves :: "json list" where
  "legal_moves = [JStr ''rock'', JStr ''paper'', JStr ''scissors'']"

text \<open>
  The cyclic relation in the words of the specification: rock beats scissors,
  scissors beats paper, paper beats rock. It is the reference the resolver is
  compared with.
\<close>

definition beats :: "json \<Rightarrow> json \<Rightarrow> bool" where
  "beats x y \<longleftrightarrow>
     (x = JStr ''rock'' \<and> y = JStr ''scissors'') \<or>
     (x = JStr ''scissors'' \<and> y = JStr ''paper'') \<or>
     (x = JStr ''paper'' \<and> y = JStr ''rock'')"

section \<open>Coroutines as state transformers with exceptions\<close>

text \<open>
  A coroutine of the server runs on the game object and the connections and either
  returns a value or raises. \<open>io_bind\<close> is sequencing (an exception skips what
  follows), \<open>except_ConnectionClosed\<close> is a \<^verbatim>\<open>try\<close> block with the one handler
  the source has.
\<close>

type_synonym state = "game \<times> net"
type_synonym 'a io = "state \<Rightarrow> (exn + 'a) \<times> state"

definition io_return :: "'a \<Rightarrow> 'a io" where
  "io_return x s = (Inr x, s)"

definition io_of :: "exn + 'a \<Rightarrow> 'a io" where
  "io_of r s = (r, s)"

definition io_bind :: "'a io \<Rightarrow> ('a \<Rightarrow> 'b io) \<Rightarrow> 'b io" where
  "io_bind m f s = (case m s of (Inl e, s') \<Rightarrow> (Inl e, s') | (Inr x, s') \<Rightarrow> f x s')"

definition except_ConnectionClosed :: "'a io \<Rightarrow> 'a io \<Rightarrow> 'a io" where
  "except_ConnectionClosed body handler s =
     (case body s of
        (Inl e, s') \<Rightarrow> (if e = ConnectionClosed then handler s' else (Inl e, s'))
      | (Inr x, s') \<Rightarrow> (Inr x, s'))"

definition on_net :: "(net \<Rightarrow> (exn + 'a) \<times> net) \<Rightarrow> 'a io" where
  "on_net f s = (case f (snd s) of (r, n') \<Rightarrow> (r, (fst s, n')))"

definition with_self :: "(game \<Rightarrow> 'a io) \<Rightarrow> 'a io" where
  "with_self f s = f (fst s) s"

definition send_to :: "(game \<Rightarrow> ws) \<Rightarrow> json \<Rightarrow> unit io" where
  "send_to who message = with_self (\<lambda>self. on_net (send (who self) message))"

text \<open>
  \<^verbatim>\<open>asyncio.gather\<close> of two coroutines. Both are started and neither is cancelled
  when the other raises, so both run to their end; the result is the list of
  the two results, or the first exception. The two coroutines the server gathers
  work on different connections and different keys of \<open>players\<close>, so running the
  first to its end before the second loses no interleaving.
\<close>

definition gather :: "'a io \<Rightarrow> 'a io \<Rightarrow> 'a list io" where
  "gather a b s =
     (case a s of (ra, s1) \<Rightarrow>
        (case b s1 of (rb, s2) \<Rightarrow>
           (case ra of
              Inl e \<Rightarrow> (Inl e, s2)
            | Inr x \<Rightarrow> (case rb of Inl e \<Rightarrow> (Inl e, s2) | Inr y \<Rightarrow> (Inr [x, y], s2)))))"

section \<open>The methods of the game object\<close>

definition invalid_move_msg :: json where
  "invalid_move_msg = JObj [(''type'', JStr ''error''), (''message'', JStr ''Invalid move'')]"

definition set_players :: "ws \<Rightarrow> json \<Rightarrow> unit io" where
  "set_players websocket move s =
     (Inr (), ((fst s)\<lparr>players := (players (fst s))(websocket \<mapsto> move)\<rparr>, snd s))"

definition get_players :: "ws \<Rightarrow> json io" where
  "get_players websocket s =
     (case players (fst s) websocket of None \<Rightarrow> (Inl KeyError, s) | Some v \<Rightarrow> (Inr v, s))"

definition set_game_over :: "bool \<Rightarrow> unit io" where
  "set_game_over b s = (Inr (), ((fst s)\<lparr>game_over := b\<rparr>, snd s))"

definition receive_move :: "ws \<Rightarrow> bool io" where
  "receive_move websocket =
     except_ConnectionClosed
       (io_bind (on_net (recv websocket)) (\<lambda>data.
        io_bind (io_of (json_loads data)) (\<lambda>message.
        io_bind (io_of (dict_get message ''move'')) (\<lambda>move.
          if move \<notin> set legal_moves
          then io_bind (on_net (send websocket invalid_move_msg)) (\<lambda>_. io_return False)
          else io_bind (set_players websocket move) (\<lambda>_. io_return True)))))
       (io_return False)"

definition broadcast :: "json \<Rightarrow> unit io" where
  "broadcast message =
     io_bind (send_to player1_ws message) (\<lambda>_. send_to player2_ws message)"

definition result_msg :: "json \<Rightarrow> json \<Rightarrow> string \<Rightarrow> json" where
  "result_msg move1 move2 result =
     JObj [(''type'', JStr ''result''), (''move1'', move1), (''move2'', move2),
           (''result'', JStr result)]"

definition determine_winner :: "unit io" where
  "determine_winner =
     io_bind (with_self (\<lambda>self. get_players (player1_ws self))) (\<lambda>move1.
     io_bind (with_self (\<lambda>self. get_players (player2_ws self))) (\<lambda>move2.
     io_bind (io_of (get_result move1 move2)) (\<lambda>result.
     io_bind (broadcast (result_msg move1 move2 result)) (\<lambda>_.
     set_game_over True))))"

definition receive_response :: "ws \<Rightarrow> bool io" where
  "receive_response websocket =
     except_ConnectionClosed
       (io_bind (on_net (recv websocket)) (\<lambda>data.
        io_bind (io_of (json_loads data)) (\<lambda>message.
        io_bind (io_of (dict_get message ''rematch'')) (\<lambda>answer.
        io_return (answer = JStr ''yes'')))))
       (io_return False)"

definition reset_game :: "unit io" where
  "reset_game s =
     (Inr (), ((fst s)\<lparr>players := [player1_ws (fst s) \<mapsto> JNull, player2_ws (fst s) \<mapsto> JNull],
                        game_over := False\<rparr>, snd s))"

section \<open>The session: start, one round, rematch\<close>

definition start_msg :: "string \<Rightarrow> string \<Rightarrow> json" where
  "start_msg player message =
     JObj [(''type'', JStr ''start''), (''player'', JStr player), (''message'', JStr message)]"

definition your_move_msg :: json where
  "your_move_msg =
     JObj [(''type'', JStr ''your_move''),
           (''message'', JStr ''Enter your move (rock, paper, or scissors):'')]"

definition error_msg :: json where
  "error_msg =
     JObj [(''type'', JStr ''error''),
           (''message'', JStr ''A player disconnected or made an invalid move.'')]"

definition rematch_msg :: json where
  "rematch_msg = JObj [(''type'', JStr ''rematch'')]"

definition end_msg :: json where
  "end_msg = JObj [(''type'', JStr ''end''), (''message'', JStr ''Game over.'')]"

subsection \<open>What every step preserves, for termination\<close>

text \<open>
  No step changes who the two players are or adds a frame to an inbox; a rematch
  is only agreed after a frame was read from each player. So the number of
  frames player 1 has still to deliver bounds the number of rematches.
\<close>

lemma io_bind_cong [fundef_cong]:
  assumes "m s = m' s'"
    and "\<And>x t. m' s' = (Inr x, t) \<Longrightarrow> f x t = f' x t"
  shows "io_bind m f s = io_bind m' f' s'"
  using assms by (auto simp: io_bind_def split: prod.splits sum.splits)

lemma if_apply_cong [fundef_cong]:
  assumes "b = c"
    and "c \<Longrightarrow> x s = u s'"
    and "\<not> c \<Longrightarrow> y s = v s'"
  shows "(if b then x else y) s = (if c then u else v) s'"
  using assms by simp

definition pending :: "state \<Rightarrow> nat" where
  "pending s = length (inbox (snd s (player1_ws (fst s))))"

definition advances :: "state \<Rightarrow> state \<Rightarrow> bool" where
  "advances s s' \<longleftrightarrow>
     player1_ws (fst s') = player1_ws (fst s) \<and>
     player2_ws (fst s') = player2_ws (fst s) \<and>
     (\<forall>w. length (inbox (snd s' w)) \<le> length (inbox (snd s w)))"

definition orderly :: "'a io \<Rightarrow> bool" where
  "orderly m \<longleftrightarrow> (\<forall>s r s'. m s = (r, s') \<longrightarrow> advances s s')"

lemma advances_refl: "advances s s"
  by (simp add: advances_def)

lemma advances_trans:
  assumes "advances s t" and "advances t u"
  shows "advances s u"
proof -
  have "length (inbox (snd u w)) \<le> length (inbox (snd s w))" for w
  proof -
    from assms(2) have "length (inbox (snd u w)) \<le> length (inbox (snd t w))"
      by (simp add: advances_def)
    also from assms(1) have "\<dots> \<le> length (inbox (snd s w))"
      by (simp add: advances_def)
    finally show ?thesis .
  qed
  with assms show ?thesis by (simp add: advances_def)
qed

lemma advances_pending: "advances s s' \<Longrightarrow> pending s' \<le> pending s"
  by (simp add: advances_def pending_def)

lemma orderlyD: "orderly m \<Longrightarrow> m s = (r, s') \<Longrightarrow> advances s s'"
  unfolding orderly_def by blast

lemma orderly_return: "orderly (io_return x)"
  by (simp add: orderly_def io_return_def advances_refl)

lemma orderly_of: "orderly (io_of r)"
  by (simp add: orderly_def io_of_def advances_refl)

lemma orderly_bind:
  assumes "orderly m" and "\<And>x. orderly (f x)"
  shows "orderly (io_bind m f)"
  unfolding orderly_def
proof (intro allI impI)
  fix s r s'
  assume run: "io_bind m f s = (r, s')"
  obtain r1 s1 where m: "m s = (r1, s1)" by (cases "m s")
  with assms(1) have a1: "advances s s1" by (rule orderlyD)
  show "advances s s'"
  proof (cases r1)
    case (Inl e)
    with run m show ?thesis using a1 by (simp add: io_bind_def)
  next
    case (Inr x)
    with run m have "f x s1 = (r, s')" by (simp add: io_bind_def)
    with assms(2) have "advances s1 s'" by (rule orderlyD)
    with a1 show ?thesis by (rule advances_trans)
  qed
qed

lemma orderly_except:
  assumes "orderly body" and "orderly handler"
  shows "orderly (except_ConnectionClosed body handler)"
  unfolding orderly_def
proof (intro allI impI)
  fix s r s'
  assume run: "except_ConnectionClosed body handler s = (r, s')"
  obtain r1 s1 where b: "body s = (r1, s1)" by (cases "body s")
  with assms(1) have a1: "advances s s1" by (rule orderlyD)
  show "advances s s'"
  proof (cases "r1 = Inl ConnectionClosed")
    case True
    with run b have "handler s1 = (r, s')" by (simp add: except_ConnectionClosed_def)
    with assms(2) have "advances s1 s'" by (rule orderlyD)
    with a1 show ?thesis by (rule advances_trans)
  next
    case False
    with run b have "s' = s1"
      by (cases r1) (auto simp: except_ConnectionClosed_def split: if_splits)
    with a1 show ?thesis by simp
  qed
qed

lemma orderly_with_self: "(\<And>g. orderly (f g)) \<Longrightarrow> orderly (with_self f)"
  by (simp add: orderly_def with_self_def)

lemma orderly_if: "orderly a \<Longrightarrow> orderly b \<Longrightarrow> orderly (if c then a else b)"
  by simp

lemma orderly_send: "orderly (on_net (send w message))"
  by (auto simp: orderly_def on_net_def send_def advances_def split: if_splits)

lemma orderly_recv: "orderly (on_net (recv w))"
  by (auto simp: orderly_def on_net_def recv_def advances_def split: list.splits)

lemma orderly_send_to: "orderly (send_to who message)"
  unfolding send_to_def by (intro orderly_with_self orderly_send)

lemma orderly_set_players: "orderly (set_players w v)"
  by (simp add: orderly_def set_players_def advances_def)

lemma orderly_get_players: "orderly (get_players w)"
  by (auto simp: orderly_def get_players_def advances_def split: option.splits)

lemma orderly_set_game_over: "orderly (set_game_over b)"
  by (simp add: orderly_def set_game_over_def advances_def)

lemma orderly_reset_game: "orderly reset_game"
  by (simp add: orderly_def reset_game_def advances_def)

lemma orderly_gather:
  assumes "orderly a" and "orderly b"
  shows "orderly (gather a b)"
  unfolding orderly_def
proof (intro allI impI)
  fix s r s'
  assume run: "gather a b s = (r, s')"
  obtain ra s1 where a: "a s = (ra, s1)" by (cases "a s")
  obtain rb s2 where b: "b s1 = (rb, s2)" by (cases "b s1")
  from run a b have "s' = s2" by (auto simp: gather_def split: sum.splits)
  moreover from assms(1) a have "advances s s1" by (rule orderlyD)
  moreover from assms(2) b have "advances s1 s2" by (rule orderlyD)
  ultimately show "advances s s'" by (auto intro: advances_trans)
qed

lemmas orderly_intros =
  orderly_bind orderly_except orderly_with_self orderly_if orderly_send orderly_recv
  orderly_send_to orderly_set_players orderly_get_players orderly_set_game_over
  orderly_reset_game orderly_gather orderly_return orderly_of

lemma orderly_receive_move: "orderly (receive_move w)"
  unfolding receive_move_def by (intro orderly_intros)

lemma orderly_receive_response: "orderly (receive_response w)"
  unfolding receive_response_def by (intro orderly_intros)

lemma orderly_broadcast: "orderly (broadcast message)"
  unfolding broadcast_def by (intro orderly_intros)

lemma orderly_determine_winner: "orderly determine_winner"
  unfolding determine_winner_def by (intro orderly_intros orderly_broadcast)

lemma gather_Inr:
  assumes "gather a b s = (Inr rs, s')"
  obtains x y s1 where "a s = (Inr x, s1)" and "b s1 = (Inr y, s')" and "rs = [x, y]"
  using assms by (auto simp: gather_def split: prod.splits sum.splits)

lemma recv_consumes:
  assumes "on_net (recv w) s = (Inr data, s')"
  shows "length (inbox (snd s' w)) < length (inbox (snd s w))"
  using assms by (auto simp: on_net_def recv_def split: list.splits)

lemma receive_response_True:
  assumes "receive_response w s = (Inr True, s')"
  shows "length (inbox (snd s' w)) < length (inbox (snd s w))"
proof -
  obtain r1 s1 where r: "on_net (recv w) s = (r1, s1)" by (cases "on_net (recv w) s")
  show ?thesis
  proof (cases r1)
    case (Inl e)
    with assms r show ?thesis
      by (auto simp: receive_response_def except_ConnectionClosed_def io_bind_def io_return_def
               split: if_splits)
  next
    case (Inr data)
    with r have less: "length (inbox (snd s1 w)) < length (inbox (snd s w))"
      by (simp add: recv_consumes)
    from assms r Inr have "s' = s1"
      by (auto simp: receive_response_def except_ConnectionClosed_def io_bind_def io_return_def
                     io_of_def split: if_splits sum.splits prod.splits)
    with less show ?thesis by simp
  qed
qed

text \<open>
  \<^verbatim>\<open>start_game\<close>, \<^verbatim>\<open>game_loop\<close> and \<^verbatim>\<open>ask_for_rematch\<close> call each other:
  \<^verbatim>\<open>ask_for_rematch\<close> restarts the session through \<^verbatim>\<open>start_game\<close>. Every path
  through the body of the \<^verbatim>\<open>while\<close> loop of \<^verbatim>\<open>game_loop\<close> ends in
  \<^verbatim>\<open>break\<close> (or raises), so the body runs at most once and
  \<^verbatim>\<open>ask_for_rematch\<close> follows it on both paths.
\<close>

function start_game :: "unit io" and game_loop :: "unit io" and ask_for_rematch :: "unit io" where
  "start_game s =
     io_bind (send_to player1_ws (start_msg ''player1'' ''Game started. You are Player 1'')) (\<lambda>_.
     io_bind (send_to player2_ws (start_msg ''player2'' ''Game started. You are Player 2'')) (\<lambda>_.
     game_loop)) s"
| "game_loop s =
     io_bind
       (if \<not> game_over (fst s) then
          io_bind (send_to player1_ws your_move_msg) (\<lambda>_.
          io_bind (send_to player2_ws your_move_msg) (\<lambda>_.
          io_bind (with_self (\<lambda>game.
                     gather (receive_move (player1_ws game)) (receive_move (player2_ws game))))
            (\<lambda>results.
               if \<not> list_all (\<lambda>r. r) results then broadcast error_msg
               else determine_winner)))
        else io_return ())
       (\<lambda>_. ask_for_rematch) s"
| "ask_for_rematch s =
     io_bind (broadcast rematch_msg) (\<lambda>_.
     io_bind (with_self (\<lambda>self.
                gather (receive_response (player1_ws self)) (receive_response (player2_ws self))))
       (\<lambda>responses.
          if list_all (\<lambda>r. r) responses then io_bind reset_game (\<lambda>_. start_game)
          else broadcast end_msg)) s"
  by pat_completeness auto
termination
proof (relation "measure (\<lambda>x. case x of
                    Inl s \<Rightarrow> 3 * pending s + 2
                  | Inr (Inl s) \<Rightarrow> 3 * pending s + 1
                  | Inr (Inr s) \<Rightarrow> 3 * pending s)", goal_cases)
  case 1
  show ?case by (rule wf_measure)
next
  case (2 s x t xa ta)
  have "advances s t" using 2(1) orderly_send_to by (rule orderlyD [rotated])
  moreover have "advances t ta" using 2(2) orderly_send_to by (rule orderlyD [rotated])
  ultimately have "pending ta \<le> pending s"
    by (blast intro: advances_trans advances_pending)
  then show ?case by simp
next
  case (3 s x t)
  have "orderly (if \<not> game_over (fst s) then
          io_bind (send_to player1_ws your_move_msg) (\<lambda>_.
          io_bind (send_to player2_ws your_move_msg) (\<lambda>_.
          io_bind (with_self (\<lambda>game.
                     gather (receive_move (player1_ws game)) (receive_move (player2_ws game))))
            (\<lambda>results.
               if \<not> list_all (\<lambda>r. r) results then broadcast error_msg
               else determine_winner)))
        else io_return ())"
    by (intro orderly_intros orderly_receive_move orderly_broadcast orderly_determine_winner)
  from this 3 have "advances s t" by (rule orderlyD)
  then have "pending t \<le> pending s" by (rule advances_pending)
  then show ?case by simp
next
  case (4 s x t xa ta xb xc)
  from orderly_broadcast 4(1) have st: "advances s t" by (rule orderlyD)
  from 4(2) have g: "gather (receive_response (player1_ws (fst t)))
       (receive_response (player2_ws (fst t))) t = (Inr xa, ta)"
    by (simp add: with_self_def)
  from g obtain a b s1 where
    r1: "receive_response (player1_ws (fst t)) t = (Inr a, s1)" and
    r2: "receive_response (player2_ws (fst t)) s1 = (Inr b, ta)" and
    xa: "xa = [a, b]"
    by (rule gather_Inr)
  from 4(3) xa have a by simp
  with r1 have less: "length (inbox (snd s1 (player1_ws (fst t)))) <
      length (inbox (snd t (player1_ws (fst t))))"
    by (simp add: receive_response_True)
  from orderly_receive_response r1 have t1: "advances t s1" by (rule orderlyD)
  from orderly_receive_response r2 have t2: "advances s1 ta" by (rule orderlyD)
  from orderly_reset_game 4(4) have t3: "advances ta xc" by (rule orderlyD)
  from t2 t3 have "advances s1 xc" by (rule advances_trans)
  then have "length (inbox (snd xc (player1_ws (fst t)))) \<le>
      length (inbox (snd s1 (player1_ws (fst t))))"
    by (simp add: advances_def)
  from this less have "length (inbox (snd xc (player1_ws (fst t)))) <
      length (inbox (snd t (player1_ws (fst t))))"
    by (rule le_less_trans)
  moreover from t1 t2 t3 have "player1_ws (fst xc) = player1_ws (fst t)"
    by (simp add: advances_def)
  ultimately have "pending xc < pending t"
    by (simp add: pending_def)
  with st have "pending xc < pending s"
    by (meson advances_pending less_le_trans)
  then show ?case by simp
qed


section \<open>Single steps\<close>

text \<open>What each operation does, by the state of the connection it works on.\<close>

lemma send_to_open:
  assumes "\<not> closed (n (who g))"
  shows "send_to who message (g, n) =
    (Inr (), (g, n(who g := (n (who g))\<lparr>outbox := outbox (n (who g)) @ [message]\<rparr>)))"
  using assms by (simp add: send_to_def with_self_def on_net_def send_def)

lemma send_to_closed:
  assumes "closed (n (who g))"
  shows "send_to who message (g, n) = (Inl ConnectionClosed, (g, n))"
  using assms by (simp add: send_to_def with_self_def on_net_def send_def)

lemma broadcast_open:
  assumes "player1_ws g \<noteq> player2_ws g"
    and "\<not> closed (n (player1_ws g))" and "\<not> closed (n (player2_ws g))"
  shows "broadcast message (g, n) =
    (Inr (), (g, n(player1_ws g := (n (player1_ws g))\<lparr>outbox := outbox (n (player1_ws g)) @ [message]\<rparr>,
                   player2_ws g := (n (player2_ws g))\<lparr>outbox := outbox (n (player2_ws g)) @ [message]\<rparr>)))"
  using assms by (simp add: broadcast_def io_bind_def send_to_open)

lemma broadcast_player1_closed:
  assumes "closed (n (player1_ws g))"
  shows "broadcast message (g, n) = (Inl ConnectionClosed, (g, n))"
  using assms by (simp add: broadcast_def io_bind_def send_to_closed)

lemma receive_move_object:
  assumes "inbox (n w) = Doc (JObj items) # rest" and "\<not> closed (n w)"
    and "dict_get (JObj items) ''move'' = Inr move"
  shows "receive_move w (g, n) =
    (if move \<in> set legal_moves
     then (Inr True, (g\<lparr>players := (players g)(w \<mapsto> move)\<rparr>, n(w := (n w)\<lparr>inbox := rest\<rparr>)))
     else (Inr False, (g, n(w := (n w)\<lparr>inbox := rest,
                                        outbox := outbox (n w) @ [invalid_move_msg]\<rparr>))))"
  using assms
  by (simp add: receive_move_def except_ConnectionClosed_def io_bind_def io_of_def io_return_def
      on_net_def recv_def send_def json_loads_def set_players_def)

lemma receive_move_closed:
  assumes "inbox (n w) = []"
  shows "receive_move w (g, n) = (Inr False, (g, n(w := (n w)\<lparr>closed := True\<rparr>)))"
  using assms
  by (simp add: receive_move_def except_ConnectionClosed_def io_bind_def io_return_def
      on_net_def recv_def)

lemma receive_move_not_json:
  assumes "inbox (n w) = NotJSON # rest"
  shows "receive_move w (g, n) = (Inl JSONDecodeError, (g, n(w := (n w)\<lparr>inbox := rest\<rparr>)))"
  using assms
  by (simp add: receive_move_def except_ConnectionClosed_def io_bind_def io_of_def
      on_net_def recv_def json_loads_def)

lemma receive_response_object:
  assumes "inbox (n w) = Doc (JObj items) # rest"
    and "dict_get (JObj items) ''rematch'' = Inr answer"
  shows "receive_response w (g, n) =
    (Inr (answer = JStr ''yes''), (g, n(w := (n w)\<lparr>inbox := rest\<rparr>)))"
  using assms
  by (simp add: receive_response_def except_ConnectionClosed_def io_bind_def io_of_def
      io_return_def on_net_def recv_def json_loads_def)

lemma receive_response_closed:
  assumes "inbox (n w) = []"
  shows "receive_response w (g, n) = (Inr False, (g, n(w := (n w)\<lparr>closed := True\<rparr>)))"
  using assms
  by (simp add: receive_response_def except_ConnectionClosed_def io_bind_def io_return_def
      on_net_def recv_def)

lemma receive_response_not_json:
  assumes "inbox (n w) = NotJSON # rest"
  shows "receive_response w (g, n) = (Inl JSONDecodeError, (g, n(w := (n w)\<lparr>inbox := rest\<rparr>)))"
  using assms
  by (simp add: receive_response_def except_ConnectionClosed_def io_bind_def io_of_def
      on_net_def recv_def json_loads_def)

lemma dict_get_object: "\<exists>v. dict_get (JObj items) key = Inr v"
  by (simp add: dict_get_def split: option.splits)

section \<open>The move resolver: results\<close>

lemma get_result_table:
  "get_result (JStr ''rock'') (JStr ''rock'') = Inr ''draw''"
  "get_result (JStr ''rock'') (JStr ''paper'') = Inr ''player2''"
  "get_result (JStr ''rock'') (JStr ''scissors'') = Inr ''player1''"
  "get_result (JStr ''paper'') (JStr ''rock'') = Inr ''player1''"
  "get_result (JStr ''paper'') (JStr ''paper'') = Inr ''draw''"
  "get_result (JStr ''paper'') (JStr ''scissors'') = Inr ''player2''"
  "get_result (JStr ''scissors'') (JStr ''rock'') = Inr ''player2''"
  "get_result (JStr ''scissors'') (JStr ''paper'') = Inr ''player1''"
  "get_result (JStr ''scissors'') (JStr ''scissors'') = Inr ''draw''"
  by (simp_all add: get_result_def wins_def)

lemma legal_moves_cases:
  "x \<in> set legal_moves \<longleftrightarrow> x = JStr ''rock'' \<or> x = JStr ''paper'' \<or> x = JStr ''scissors''"
  by (auto simp: legal_moves_def)

lemma beats_table:
  "beats (JStr ''rock'') (JStr ''scissors'')"
  "beats (JStr ''scissors'') (JStr ''paper'')"
  "beats (JStr ''paper'') (JStr ''rock'')"
  "\<not> beats (JStr ''rock'') (JStr ''paper'')"
  "\<not> beats (JStr ''scissors'') (JStr ''rock'')"
  "\<not> beats (JStr ''paper'') (JStr ''scissors'')"
  by (simp_all add: beats_def)

lemma legal_moves_distinct:
  "JStr ''rock'' \<noteq> JStr ''paper''" "JStr ''rock'' \<noteq> JStr ''scissors''"
  "JStr ''paper'' \<noteq> JStr ''rock''" "JStr ''paper'' \<noteq> JStr ''scissors''"
  "JStr ''scissors'' \<noteq> JStr ''rock''" "JStr ''scissors'' \<noteq> JStr ''paper''"
  by simp_all

text \<open>
  C3. For every pair of legal choices, equal choices give a draw; distinct choices
  give \<open>player1\<close> exactly when the first beats the second in the cycle (rock beats
  scissors, scissors beats paper, paper beats rock), and \<open>player2\<close> otherwise. In
  particular rock against scissors is \<open>player1\<close>, scissors against rock is
  \<open>player2\<close>, paper against paper is a draw.
\<close>

theorem get_result_resolves:
  assumes "x \<in> set legal_moves" and "y \<in> set legal_moves"
  shows "get_result x y =
           Inr (if x = y then ''draw'' else if beats x y then ''player1'' else ''player2'') \<and>
         get_result (JStr ''rock'') (JStr ''scissors'') = Inr ''player1'' \<and>
         get_result (JStr ''scissors'') (JStr ''rock'') = Inr ''player2'' \<and>
         get_result (JStr ''paper'') (JStr ''paper'') = Inr ''draw''"
  using assms unfolding legal_moves_cases
  by (elim disjE)
     (simp_all only: get_result_table beats_table legal_moves_distinct if_True if_False simp_thms)

theorem get_result_resolves_witness:
  "JStr ''paper'' \<in> set legal_moves \<and> JStr ''rock'' \<in> set legal_moves \<and>
   beats (JStr ''paper'') (JStr ''rock'') \<and>
   get_result (JStr ''paper'') (JStr ''rock'') = Inr ''player1''"
  using get_result_resolves [of "JStr ''paper''" "JStr ''rock''"]
  by (simp add: legal_moves_def beats_table)

text \<open>
  C10. For distinct legal choices the resolver is antisymmetric: the first player
  wins one way round exactly when the second player wins the other way round, and
  a draw is never returned; on legal choices the result is always one of
  \<open>player1\<close>, \<open>player2\<close>, \<open>draw\<close>.
\<close>

theorem get_result_antisymmetric:
  assumes "x \<in> set legal_moves" and "y \<in> set legal_moves"
  shows "(x \<noteq> y \<longrightarrow>
           (get_result x y = Inr ''player1'') = (get_result y x = Inr ''player2'') \<and>
           get_result x y \<noteq> Inr ''draw'') \<and>
         get_result x y \<in> {Inr ''player1'', Inr ''player2'', Inr ''draw''}"
  using assms unfolding legal_moves_cases
  by (elim disjE) (simp_all add: get_result_table)

theorem get_result_antisymmetric_witness:
  "JStr ''rock'' \<in> set legal_moves \<and> JStr ''paper'' \<in> set legal_moves \<and>
   JStr ''rock'' \<noteq> JStr ''paper'' \<and>
   get_result (JStr ''rock'') (JStr ''paper'') = Inr ''player2'' \<and>
   get_result (JStr ''paper'') (JStr ''rock'') = Inr ''player1'' \<and>
   get_result (JStr ''rock'') (JStr ''paper'') \<noteq> Inr ''draw''"
  using get_result_antisymmetric [of "JStr ''rock''" "JStr ''paper''"]
  by (simp add: legal_moves_def get_result_table)

end
